theory Spec2Isabelle
  imports Main "HOL-Library.Multiset" "HOL-Library.Sublist"
begin

section \<open>Data model of the synthetic query pipeline\<close>

text \<open>
  The Pydantic models of \<^verbatim>\<open>homeworks/hw2/gen_mixed_synth_queries.py\<close>, field by field.
  A Python exception instance (anything an \<^verbatim>\<open>except Exception\<close> clause catches) is
  a value of type \<open>exn\<close>; a function that may raise returns \<open>exn + 'a\<close>, with \<open>Inl\<close>
  the raised exception. The field \<^verbatim>\<open>id\<close> is written \<open>id'\<close>, the name \<open>id\<close> being
  HOL's identity function.
\<close>

datatype exn = Exception string

record DimensionTuple =
  DietaryNeedsOrRestrictions :: string
  AvailableIngredientsFocus :: string
  CuisinePreference :: string
  SkillLevelEffort :: string
  TimeAvailability :: string
  QueryStyleAndDetail :: string
  UserContextOrScenario :: string
  UserAbilityOrAccessibility :: string

record QueryWithDimensions =
  id' :: string
  query :: string
  dimension_tuple :: "DimensionTuple option"
  query_type :: string
  is_realistic_and_kept :: int
  notes_for_filtering :: string

record DimensionTuplesList =
  tuples :: "DimensionTuple list"

record QueriesList =
  queries :: "string list"

text \<open>A chat message is a Python \<^verbatim>\<open>Dict[str, str]\<close>: a finite map from keys to strings.\<close>

type_synonym message = "string \<rightharpoonup> string"

definition user_message :: "string \<Rightarrow> message" where
  "user_message prompt = [''role'' \<mapsto> ''user'', ''content'' \<mapsto> prompt]"

text \<open>
  What the program prints, one constructor per \<^verbatim>\<open>print\<close> statement of the orchestrating
  thread, carrying the values its format string interpolates (the elapsed time of the
  final report apart, which is a float).
\<close>

datatype printed =
    ErrorGeneratingTuples exn
  | ErrorGeneratingQueriesForTuple exn
  | ErrorGeneratingAmbiguous exn
  | ErrorGeneratingAdversarial exn
  | GeneratingQueriesEach nat nat
  | TupleGeneratedException nat exn
  | NoQueriesToSave
  | SavedQueries nat "string list"
  | ApiKeyNotSet
  | Step1
  | FailedToGenerateTuples
  | GeneratedTuples nat
  | Step2
  | Step3
  | Step4
  | CompletedSuccessfully
  | GeneratedSummary nat nat nat nat

subsection \<open>Configuration\<close>

definition MODEL_NAME :: string where
  "MODEL_NAME = ''gpt-4o-mini''"

definition NUM_TUPLES_TO_GENERATE :: nat where
  "NUM_TUPLES_TO_GENERATE = 10"

definition NUM_QUERIES_PER_TUPLE :: nat where
  "NUM_QUERIES_PER_TUPLE = 5"

definition NUM_AMBIGUOUS_QUERIES :: nat where
  "NUM_AMBIGUOUS_QUERIES = 15"

definition NUM_ADVERSARIAL_QUERIES :: nat where
  "NUM_ADVERSARIAL_QUERIES = 3"

definition MAX_WORKERS :: nat where
  "MAX_WORKERS = 5"

section \<open>The structured call wrapper\<close>

text \<open>
  The generation provider is outside the program. \<open>completion k model messages\<close> is what
  the \<open>k\<close>-th invocation (counted from 0) of \<^verbatim>\<open>litellm.completion\<close> made by one
  \<^verbatim>\<open>call_llm\<close> does: it raises, or it returns a response, of which the program reads
  the content of the first choice's message. The schema class \<^verbatim>\<open>response_format\<close> is
  modelled by what the code does with it, \<^verbatim>\<open>response_format(**json.loads(content))\<close>:
  a decoder that raises or returns an instance. Every effect of \<^verbatim>\<open>call_llm\<close> is
  recorded in a trace of events.
\<close>

type_synonym completion_fn = "nat \<Rightarrow> string \<Rightarrow> message list \<Rightarrow> exn + string"

type_synonym 'a response_format = "string \<Rightarrow> exn + 'a"

datatype event = Invoke string "message list" | Sleep nat

fun is_Invoke :: "event \<Rightarrow> bool" where
  "is_Invoke (Invoke model msgs) = True"
| "is_Invoke (Sleep n) = False"

definition invocations :: "event list \<Rightarrow> nat" where
  "invocations trace = length (filter is_Invoke trace)"

definition max_retries :: nat where
  "max_retries = 3"

text \<open>The body of the \<^verbatim>\<open>try\<close>: the provider call, then decoding into the schema.\<close>

definition try_attempt ::
  "completion_fn \<Rightarrow> message list \<Rightarrow> 'a response_format \<Rightarrow> nat \<Rightarrow> exn + 'a" where
  "try_attempt completion msgs response_format k =
     (case completion k MODEL_NAME msgs of
        Inl e \<Rightarrow> Inl e
      | Inr content \<Rightarrow> response_format content)"

text \<open>
  \<^verbatim>\<open>for attempt in range(max_retries)\<close>: a success returns at once; a failure on the
  last index re-raises the caught exception; any other failure sleeps one second and goes
  on. A loop that runs out of indices falls off the end of the function, which in Python
  returns \<^verbatim>\<open>None\<close>: the result \<open>Inr None\<close>.
\<close>

fun call_llm_for ::
  "completion_fn \<Rightarrow> message list \<Rightarrow> 'a response_format \<Rightarrow> nat list \<Rightarrow> event list
     \<Rightarrow> (exn + 'a option) \<times> event list" where
  "call_llm_for completion msgs response_format [] trace = (Inr None, trace)"
| "call_llm_for completion msgs response_format (attempt # rest) trace =
     (let trace' = trace @ [Invoke MODEL_NAME msgs] in
      case try_attempt completion msgs response_format (invocations trace) of
        Inr v \<Rightarrow> (Inr (Some v), trace')
      | Inl e \<Rightarrow>
          if attempt = max_retries - 1 then (Inl e, trace')
          else call_llm_for completion msgs response_format rest (trace' @ [Sleep 1]))"

definition call_llm ::
  "completion_fn \<Rightarrow> message list \<Rightarrow> 'a response_format \<Rightarrow> (exn + 'a option) \<times> event list" where
  "call_llm completion msgs response_format =
     call_llm_for completion msgs response_format [0..<max_retries] []"

section \<open>The generators\<close>

text \<open>
  Parameters of the generators that are not code of the program: \<open>model_dump_json\<close> is
  Pydantic's canonical JSON serialisation of a \<open>DimensionTuple\<close>; the prompt arguments are
  the f-string templates of the source (instructions, taxonomy and examples), whose text
  no branch of the program reads.
\<close>

text \<open>
  The deduplication loop of \<^verbatim>\<open>generate_dimension_tuples\<close>: \<open>seen\<close> is the set of
  serialisations met so far, \<open>unique_tuples\<close> the list built by \<^verbatim>\<open>append\<close>.
\<close>

fun dedup_loop ::
  "(DimensionTuple \<Rightarrow> string) \<Rightarrow> DimensionTuple list \<Rightarrow> string set \<Rightarrow> DimensionTuple list
     \<Rightarrow> DimensionTuple list" where
  "dedup_loop model_dump_json [] seen unique_tuples = unique_tuples"
| "dedup_loop model_dump_json (tup # rest) seen unique_tuples =
     (let tuple_str = model_dump_json tup in
      if tuple_str \<notin> seen
      then dedup_loop model_dump_json rest (insert tuple_str seen) (unique_tuples @ [tup])
      else dedup_loop model_dump_json rest seen unique_tuples)"

text \<open>
  One call of the wrapper inside a \<^verbatim>\<open>try\<close>; an exception of the wrapper, or the
  attribute access on a \<^verbatim>\<open>None\<close> result, ends in the \<^verbatim>\<open>except\<close> branch, which prints
  and returns the empty list. The single future of the executor is awaited at once, so the
  call is sequential.
\<close>

definition generate_dimension_tuples ::
  "(DimensionTuple \<Rightarrow> string) \<Rightarrow> string \<Rightarrow> completion_fn \<Rightarrow> DimensionTuplesList response_format
     \<Rightarrow> DimensionTuple list \<times> printed list" where
  "generate_dimension_tuples model_dump_json prompt completion response_format =
     (let msgs = [user_message prompt] in
      case fst (call_llm completion msgs response_format) of
        Inl e \<Rightarrow> ([], [ErrorGeneratingTuples e])
      | Inr None \<Rightarrow> ([], [ErrorGeneratingTuples (Exception ''AttributeError'')])
      | Inr (Some response) \<Rightarrow>
          (let all_tuples = tuples response
           in (dedup_loop model_dump_json all_tuples {} [], [])))"

definition generate_queries_for_tuple ::
  "(DimensionTuple \<Rightarrow> string) \<Rightarrow> completion_fn \<Rightarrow> QueriesList response_format
     \<Rightarrow> DimensionTuple \<Rightarrow> string list \<times> printed list" where
  "generate_queries_for_tuple prompt completion response_format dim_tuple =
     (let msgs = [user_message (prompt dim_tuple)] in
      case fst (call_llm completion msgs response_format) of
        Inl e \<Rightarrow> ([], [ErrorGeneratingQueriesForTuple e])
      | Inr None \<Rightarrow> ([], [ErrorGeneratingQueriesForTuple (Exception ''AttributeError'')])
      | Inr (Some response) \<Rightarrow> (queries response, []))"

definition generate_ambiguous_queries ::
  "(nat \<Rightarrow> string) \<Rightarrow> completion_fn \<Rightarrow> QueriesList response_format \<Rightarrow> nat
     \<Rightarrow> string list \<times> printed list" where
  "generate_ambiguous_queries prompt completion response_format num =
     (let msgs = [user_message (prompt num)] in
      case fst (call_llm completion msgs response_format) of
        Inl e \<Rightarrow> ([], [ErrorGeneratingAmbiguous e])
      | Inr None \<Rightarrow> ([], [ErrorGeneratingAmbiguous (Exception ''AttributeError'')])
      | Inr (Some response) \<Rightarrow> (queries response, []))"

definition generate_adversarial_queries ::
  "(nat \<Rightarrow> string) \<Rightarrow> completion_fn \<Rightarrow> QueriesList response_format \<Rightarrow> nat
     \<Rightarrow> string list \<times> printed list" where
  "generate_adversarial_queries prompt completion response_format num =
     (let msgs = [user_message (prompt num)] in
      case fst (call_llm completion msgs response_format) of
        Inl e \<Rightarrow> ([], [ErrorGeneratingAdversarial e])
      | Inr None \<Rightarrow> ([], [ErrorGeneratingAdversarial (Exception ''AttributeError'')])
      | Inr (Some response) \<Rightarrow> (queries response, []))"

section \<open>The regular query stage\<close>

text \<open>
  \<^verbatim>\<open>f"SYN{query_id:03d}"\<close>: the decimal digits of a non-negative integer, padded on the
  left with zeros to a width of at least 3.
\<close>

definition digit_char :: "nat \<Rightarrow> char" where
  "digit_char d = ''0123456789'' ! d"

fun str_nat :: "nat \<Rightarrow> string" where
  "str_nat n = (if n < 10 then [digit_char n] else str_nat (n div 10) @ [digit_char (n mod 10)])"

declare str_nat.simps [simp del]

definition format_03d :: "nat \<Rightarrow> string" where
  "format_03d n = replicate (3 - length (str_nat n)) (CHR ''0'') @ str_nat n"

text \<open>
  The inner loop of the collector, \<^verbatim>\<open>for query in queries\<close>: one record per query
  string, the counter \<open>query_id\<close> advanced after each. \<^verbatim>\<open>dimension_tuples[tuple_idx]\<close>
  raises \<^verbatim>\<open>IndexError\<close> out of range; the records appended before an exception stay.
\<close>

fun assemble ::
  "DimensionTuple list \<Rightarrow> nat \<Rightarrow> string list \<Rightarrow> QueryWithDimensions list \<Rightarrow> nat
     \<Rightarrow> exn option \<times> QueryWithDimensions list \<times> nat" where
  "assemble dimension_tuples tuple_idx [] all_queries query_id = (None, all_queries, query_id)"
| "assemble dimension_tuples tuple_idx (q # rest) all_queries query_id =
     (if tuple_idx < length dimension_tuples
      then assemble dimension_tuples tuple_idx rest
             (all_queries @
                [\<lparr>id' = ''SYN'' @ format_03d query_id,
                  query = q,
                  dimension_tuple = Some (dimension_tuples ! tuple_idx),
                  query_type = ''regular'',
                  is_realistic_and_kept = 1,
                  notes_for_filtering = ''''\<rparr>])
             (query_id + 1)
      else (Some (Exception ''IndexError''), all_queries, query_id))"

text \<open>
  The collecting loop, \<^verbatim>\<open>for future in as_completed(future_to_tuple)\<close>, over the indices
  of the futures in the order they complete. \<open>future_result i\<close> is what
  \<^verbatim>\<open>future.result()\<close> does for the future of tuple \<open>i\<close>: it re-raises the task's exception
  or returns the task's list. The state of the loop is the list \<open>all_queries\<close>, the
  counter \<open>query_id\<close> and what was printed; no task touches it.
\<close>

fun collect_futures ::
  "DimensionTuple list \<Rightarrow> (nat \<Rightarrow> exn + string list) \<Rightarrow> nat list
     \<Rightarrow> QueryWithDimensions list \<Rightarrow> nat \<Rightarrow> printed list
     \<Rightarrow> QueryWithDimensions list \<times> nat \<times> printed list" where
  "collect_futures dimension_tuples future_result [] all_queries query_id log =
     (all_queries, query_id, log)"
| "collect_futures dimension_tuples future_result (tuple_idx # rest) all_queries query_id log =
     (case future_result tuple_idx of
        Inl e \<Rightarrow>
          collect_futures dimension_tuples future_result rest all_queries query_id
            (log @ [TupleGeneratedException (tuple_idx + 1) e])
      | Inr qs \<Rightarrow>
          (case (if qs \<noteq> [] then assemble dimension_tuples tuple_idx qs all_queries query_id
                 else (None, all_queries, query_id)) of
             (None, all_queries', query_id') \<Rightarrow>
               collect_futures dimension_tuples future_result rest all_queries' query_id' log
           | (Some e, all_queries', query_id') \<Rightarrow>
               collect_futures dimension_tuples future_result rest all_queries' query_id'
                 (log @ [TupleGeneratedException (tuple_idx + 1) e])))"

text \<open>
  \<^verbatim>\<open>as_completed\<close> yields every pending future exactly once, in an order the scheduler
  decides: at its \<open>k\<close>-th step the future at position \<open>sched k mod length pending\<close> of
  those still pending is the next to complete. Every order of completion arises from some
  \<open>sched\<close>.
\<close>

function as_completed :: "(nat \<Rightarrow> nat) \<Rightarrow> nat \<Rightarrow> nat list \<Rightarrow> nat list" where
  "as_completed sched k pending =
     (if pending = [] then []
      else (let future = pending ! (sched k mod length pending)
            in future # as_completed sched (k + 1) (remove1 future pending)))"
  by pat_completeness auto
termination
proof (relation "measure (\<lambda>(sched, k, pending). length pending)")
  show "wf (measure (\<lambda>(sched, k, pending). length pending))"
    by simp
next
  fix sched :: "nat \<Rightarrow> nat" and k :: nat and pending :: "nat list" and future :: nat
  assume nonempty: "pending \<noteq> []" and fut: "future = pending ! (sched k mod length pending)"
  from nonempty have "sched k mod length pending < length pending"
    by simp
  with fut have "future \<in> set pending"
    by simp
  then have "length (remove1 future pending) < length pending"
    by (simp add: length_remove1) (use nonempty in \<open>cases pending; simp\<close>)
  then show "((sched, k + 1, remove1 future pending), (sched, k, pending))
      \<in> measure (\<lambda>(sched, k, pending). length pending)"
    by simp
qed

declare as_completed.simps [simp del]

text \<open>
  One task per tuple is submitted, keyed by its index \<^verbatim>\<open>i\<close> of \<^verbatim>\<open>enumerate\<close>; each task
  runs \<^verbatim>\<open>generate_queries_for_tuple\<close> against the provider, \<open>task_completion i\<close> being the
  provider as task \<open>i\<close> meets it. The task catches its own exceptions, so its future
  holds a list. What the worker threads print is not recorded.
\<close>

definition generate_queries_parallel ::
  "(DimensionTuple \<Rightarrow> string) \<Rightarrow> (nat \<Rightarrow> completion_fn) \<Rightarrow> QueriesList response_format
     \<Rightarrow> (nat \<Rightarrow> nat) \<Rightarrow> DimensionTuple list \<Rightarrow> QueryWithDimensions list \<times> printed list" where
  "generate_queries_parallel prompt task_completion response_format sched dimension_tuples =
     (let future_result = (\<lambda>i. Inr (fst (generate_queries_for_tuple prompt (task_completion i)
                                  response_format (dimension_tuples ! i))));
          order = as_completed sched 0 [0..<length dimension_tuples]
      in case collect_futures dimension_tuples future_result order [] 1
                [GeneratingQueriesEach NUM_QUERIES_PER_TUPLE (length dimension_tuples)] of
           (all_queries, query_id, log) \<Rightarrow> (all_queries, log))"

section \<open>Persistence\<close>

text \<open>
  A path is the list of its components. The file system holds the directories that exist
  and the tabular files written: a header and one row per record. Failures of the
  operating system (permissions, a full disk) are outside the model.
\<close>

record csv_row =
  col_id :: string
  col_query :: string
  col_dimension_tuple_json :: "string option"
  col_query_type :: string
  col_is_realistic_and_kept :: int
  col_notes_for_filtering :: string

record csv_file =
  header :: "string list"
  rows :: "csv_row list"

record filesystem =
  directories :: "string list set"
  files :: "string list \<rightharpoonup> csv_file"

definition get_output_csv_path ::
  "string \<Rightarrow> string list option \<Rightarrow> string \<Rightarrow> string list \<Rightarrow> string \<Rightarrow> filesystem
     \<Rightarrow> string list \<times> filesystem" where
  "get_output_csv_path base_name dir_path ext file_parent timestamp fs =
     (let dir = (case dir_path of None \<Rightarrow> file_parent | Some d \<Rightarrow> d);
          file_name = base_name @ ''_'' @ timestamp @ ''.'' @ ext;
          output_path = dir @ [file_name]
      in (output_path, fs\<lparr>directories := directories fs \<union> set (prefixes dir)\<rparr>))"

definition csv_columns :: "string list" where
  "csv_columns = [''id'', ''query'', ''dimension_tuple_json'', ''query_type'',
                  ''is_realistic_and_kept'', ''notes_for_filtering'']"

definition to_row :: "(DimensionTuple \<Rightarrow> string) \<Rightarrow> QueryWithDimensions \<Rightarrow> csv_row" where
  "to_row model_dump_json q =
     \<lparr>col_id = id' q,
      col_query = query q,
      col_dimension_tuple_json =
        (case dimension_tuple q of Some t \<Rightarrow> Some (model_dump_json t) | None \<Rightarrow> None),
      col_query_type = query_type q,
      col_is_realistic_and_kept = is_realistic_and_kept q,
      col_notes_for_filtering = notes_for_filtering q\<rparr>"

definition save_queries_to_csv ::
  "(DimensionTuple \<Rightarrow> string) \<Rightarrow> QueryWithDimensions list \<Rightarrow> string list \<Rightarrow> filesystem
     \<Rightarrow> filesystem \<times> printed list" where
  "save_queries_to_csv model_dump_json qs output_csv_path fs =
     (if qs = [] then (fs, [NoQueriesToSave])
      else
        (let df = \<lparr>header = csv_columns, rows = map (to_row model_dump_json) qs\<rparr>
         in (fs\<lparr>files := (files fs)(output_csv_path \<mapsto> df)\<rparr>,
             [SavedQueries (length qs) output_csv_path])))"

section \<open>The orchestrator\<close>

text \<open>
  \<^verbatim>\<open>random.shuffle\<close> of the standard library, on a list held in place:
  \<^verbatim>\<open>for i in reversed(range(1, len(x))): j = randbelow(i + 1); x[i], x[j] = x[j], x[i]\<close>.
  The \<open>k\<close>-th call of \<^verbatim>\<open>randbelow(n)\<close> returns \<open>draws k mod n\<close>.
\<close>

fun shuffle_loop :: "(nat \<Rightarrow> nat) \<Rightarrow> nat \<Rightarrow> nat list \<Rightarrow> 'a list \<Rightarrow> 'a list" where
  "shuffle_loop draws k [] x = x"
| "shuffle_loop draws k (i # rest) x =
     (let j = draws k mod (i + 1)
      in shuffle_loop draws (k + 1) rest (x[i := x ! j, j := x ! i]))"

definition shuffle :: "(nat \<Rightarrow> nat) \<Rightarrow> 'a list \<Rightarrow> 'a list" where
  "shuffle draws x = shuffle_loop draws 0 (rev [1..<length x]) x"

text \<open>
  Everything a run of \<^verbatim>\<open>main\<close> depends on that is not code of the program: the process
  environment, the script's directory and the clock, the library functions and prompt
  templates, the provider as each call of the wrapper meets it, the scheduler of the
  worker pool and the random generator.
\<close>

record world =
  os_environ :: "string set"
  file_parent :: "string list"
  strftime_now :: string
  pydantic_dump :: "DimensionTuple \<Rightarrow> string"
  prompt_tuples :: string
  prompt_queries :: "DimensionTuple \<Rightarrow> string"
  prompt_ambiguous :: "nat \<Rightarrow> string"
  prompt_adversarial :: "nat \<Rightarrow> string"
  schema_tuples :: "DimensionTuplesList response_format"
  schema_queries :: "QueriesList response_format"
  llm_tuples :: completion_fn
  llm_task :: "nat \<Rightarrow> completion_fn"
  llm_ambiguous :: completion_fn
  llm_adversarial :: completion_fn
  pool_scheduler :: "nat \<Rightarrow> nat"
  random_draws :: "nat \<Rightarrow> nat"

text \<open>
  What a run leaves behind: the lines printed (each stage prints on entry, and
  \<^verbatim>\<open>save_queries_to_csv\<close> prints on every path), the three category sequences as
  created, the sequence handed to \<^verbatim>\<open>save_queries_to_csv\<close> (\<open>None\<close> when it is not
  called) and the file system.
\<close>

record run =
  run_printed :: "printed list"
  run_regular :: "QueryWithDimensions list"
  run_ambiguous :: "QueryWithDimensions list"
  run_adversarial :: "QueryWithDimensions list"
  run_saved :: "QueryWithDimensions list option"
  run_files :: filesystem

definition ambiguous_record :: "nat \<times> string \<Rightarrow> QueryWithDimensions" where
  "ambiguous_record = (\<lambda>(i, q).
     \<lparr>id' = ''AMB'' @ format_03d (i + 1),
      query = q,
      dimension_tuple = None,
      query_type = ''ambiguous'',
      is_realistic_and_kept = 1,
      notes_for_filtering = ''''\<rparr>)"

definition adversarial_record :: "nat \<times> string \<Rightarrow> QueryWithDimensions" where
  "adversarial_record = (\<lambda>(i, q).
     \<lparr>id' = ''ADV'' @ format_03d (i + 1),
      query = q,
      dimension_tuple = None,
      query_type = ''adversarial'',
      is_realistic_and_kept = 1,
      notes_for_filtering = ''''\<rparr>)"

definition main :: "world \<Rightarrow> filesystem \<Rightarrow> run" where
  "main w fs =
     (if ''OPENAI_API_KEY'' \<notin> os_environ w then
        \<lparr>run_printed = [ApiKeyNotSet],
         run_regular = [], run_ambiguous = [], run_adversarial = [],
         run_saved = None, run_files = fs\<rparr>
      else
        (case generate_dimension_tuples (pydantic_dump w) (prompt_tuples w) (llm_tuples w)
                (schema_tuples w) of
           (dimension_tuples, log1) \<Rightarrow>
        if dimension_tuples = [] then
          \<lparr>run_printed = [Step1] @ log1 @ [FailedToGenerateTuples],
           run_regular = [], run_ambiguous = [], run_adversarial = [],
           run_saved = None, run_files = fs\<rparr>
        else
          (case generate_queries_parallel (prompt_queries w) (llm_task w) (schema_queries w)
                  (pool_scheduler w) dimension_tuples of
             (regular_queries, log2) \<Rightarrow>
          (case generate_ambiguous_queries (prompt_ambiguous w) (llm_ambiguous w)
                  (schema_queries w) NUM_AMBIGUOUS_QUERIES of
             (ambiguous_queries_raw, log3) \<Rightarrow>
          (case generate_adversarial_queries (prompt_adversarial w) (llm_adversarial w)
                  (schema_queries w) NUM_ADVERSARIAL_QUERIES of
             (adversarial_queries_raw, log4) \<Rightarrow>
          (let ambiguous_queries = map ambiguous_record (enumerate 0 ambiguous_queries_raw);
               adversarial_queries = map adversarial_record (enumerate 0 adversarial_queries_raw);
               all_queries = shuffle (random_draws w)
                               (regular_queries @ ambiguous_queries @ adversarial_queries)
           in (case get_output_csv_path ''synthetic_queries_for_analysis''
                       (Some (file_parent w)) ''csv'' (file_parent w) (strftime_now w) fs of
                 (output_csv_path, fs1) \<Rightarrow>
              (case save_queries_to_csv (pydantic_dump w) all_queries output_csv_path fs1 of
                 (fs2, log5) \<Rightarrow>
                   \<lparr>run_printed =
                      [Step1] @ log1 @ [GeneratedTuples (length dimension_tuples), Step2] @ log2
                      @ [Step3] @ log3 @ [Step4] @ log4 @ log5
                      @ [CompletedSuccessfully,
                         GeneratedSummary (length all_queries) (length regular_queries)
                           (length ambiguous_queries) (length adversarial_queries)],
                    run_regular = regular_queries,
                    run_ambiguous = ambiguous_queries,
                    run_adversarial = adversarial_queries,
                    run_saved = Some all_queries,
                    run_files = fs2\<rparr>))))))))"

section \<open>The chatbot wrapper of the backend\<close>

text \<open>
  \<^verbatim>\<open>backend/utils.py\<close>. Python lists are objects: a name holds a reference, and two
  names may hold the same one. The store maps references to the lists they denote;
  \<open>next_ref\<close> is the first reference never handed out. The dictionaries in the lists are
  not written by this module and are held by value.
\<close>

record store =
  cells :: "nat \<rightharpoonup> message list"
  next_ref :: nat

definition new_list :: "message list \<Rightarrow> store \<Rightarrow> nat \<times> store" where
  "new_list v s = (next_ref s, s\<lparr>cells := (cells s)(next_ref s \<mapsto> v), next_ref := Suc (next_ref s)\<rparr>)"

text \<open>
  A name always holds the reference of a live object; the theorems are about stores in
  which the caller's reference is allocated.
\<close>

definition deref :: "store \<Rightarrow> nat \<Rightarrow> message list" where
  "deref s r = (case cells s r of Some v \<Rightarrow> v | None \<Rightarrow> [])"

text \<open>\<^verbatim>\<open>a + b\<close> on two lists builds a new list and writes neither operand.\<close>

definition list_add :: "nat \<Rightarrow> nat \<Rightarrow> store \<Rightarrow> nat \<times> store" where
  "list_add a b s = new_list (deref s a @ deref s b) s"

definition system_message :: "string \<Rightarrow> message" where
  "system_message prompt = [''role'' \<mapsto> ''system'', ''content'' \<mapsto> prompt]"

definition assistant_message :: "string \<Rightarrow> message" where
  "assistant_message content = [''role'' \<mapsto> ''assistant'', ''content'' \<mapsto> content]"

text \<open>
  The test \<^verbatim>\<open>not messages or messages[0]["role"] != "system"\<close>; the subscript on a
  dictionary without the key raises \<^verbatim>\<open>KeyError\<close>.
\<close>

definition lacks_system_prompt :: "message list \<Rightarrow> exn + bool" where
  "lacks_system_prompt msgs =
     (case msgs of
        [] \<Rightarrow> Inr True
      | m # _ \<Rightarrow> (case m ''role'' of
                    None \<Rightarrow> Inl (Exception ''KeyError'')
                  | Some r \<Rightarrow> Inr (r \<noteq> ''system'')))"

text \<open>
  \<open>SYSTEM_PROMPT\<close> is the text of \<^verbatim>\<open>backend/prompts.py\<close> and \<open>model_name\<close> the value
  read from the environment. \<open>completion model msgs\<close> is the call of
  \<^verbatim>\<open>litellm.completion\<close> together with the extraction of the first choice's content: it
  raises or returns the content, and reads the list it is passed without writing it.
  \<open>strip\<close> is \<^verbatim>\<open>str.strip\<close>. The function takes the reference of the caller's list and
  returns the reference of the list it built, or the exception it raised.
\<close>

definition get_agent_response ::
  "string \<Rightarrow> string \<Rightarrow> (string \<Rightarrow> message list \<Rightarrow> exn + string) \<Rightarrow> (string \<Rightarrow> string)
     \<Rightarrow> nat \<Rightarrow> store \<Rightarrow> (exn + nat) \<times> store" where
  "get_agent_response SYSTEM_PROMPT model_name completion strip messages s =
     (case lacks_system_prompt (deref s messages) of
        Inl e \<Rightarrow> (Inl e, s)
      | Inr prepend \<Rightarrow>
          (case (if prepend
                 then (case new_list [system_message SYSTEM_PROMPT] s of
                         (lit, s1) \<Rightarrow> list_add lit messages s1)
                 else (messages, s)) of
             (current_messages, s2) \<Rightarrow>
               (case completion model_name (deref s2 current_messages) of
                  Inl e \<Rightarrow> (Inl e, s2)
                | Inr content \<Rightarrow>
                    (case new_list [assistant_message (strip content)] s2 of
                       (lit, s3) \<Rightarrow>
                         (case list_add current_messages lit s3 of
                            (updated_messages, s4) \<Rightarrow> (Inr updated_messages, s4))))))"

section \<open>Notions used to state the properties\<close>

text \<open>
  The subsequence of first occurrences, as the specification words it: the element at
  position \<open>i\<close> is kept when no earlier element has the same key.
\<close>

definition first_occurrences :: "('a \<Rightarrow> 'k) \<Rightarrow> 'a list \<Rightarrow> 'a list" where
  "first_occurrences key xs =
     map ((!) xs) (filter (\<lambda>i. key (xs ! i) \<notin> key ` set (take i xs)) [0..<length xs])"

text \<open>The same, by recursion along the list, with the keys already met.\<close>

fun keep_unseen :: "('a \<Rightarrow> 'k) \<Rightarrow> 'k set \<Rightarrow> 'a list \<Rightarrow> 'a list" where
  "keep_unseen key seen [] = []"
| "keep_unseen key seen (x # xs) =
     (if key x \<in> seen then keep_unseen key seen xs
      else x # keep_unseen key (insert (key x) seen) xs)"

subsection \<open>Sample values\<close>

definition sample_vegan :: DimensionTuple where
  "sample_vegan =
     \<lparr>DietaryNeedsOrRestrictions = ''vegan'',
      AvailableIngredientsFocus = ''general_pantry'',
      CuisinePreference = ''any_cuisine'',
      SkillLevelEffort = ''beginner_easy_low_effort'',
      TimeAvailability = ''quick_under_30_mins'',
      QueryStyleAndDetail = ''short_keywords_minimal_detail'',
      UserContextOrScenario = ''regular_meal'',
      UserAbilityOrAccessibility = ''total_beginner''\<rparr>"

definition sample_keto :: DimensionTuple where
  "sample_keto = sample_vegan\<lparr>DietaryNeedsOrRestrictions := ''keto''\<rparr>"

text \<open>A stand-in for the serialiser: the eight fields in order, separated by commas.\<close>

definition sample_dump :: "DimensionTuple \<Rightarrow> string" where
  "sample_dump t =
     DietaryNeedsOrRestrictions t @ '','' @ AvailableIngredientsFocus t @ '','' @
     CuisinePreference t @ '','' @ SkillLevelEffort t @ '','' @ TimeAvailability t @ '','' @
     QueryStyleAndDetail t @ '','' @ UserContextOrScenario t @ '','' @
     UserAbilityOrAccessibility t"


definition empty_fs :: filesystem where
  "empty_fs = \<lparr>directories = {}, files = Map.empty\<rparr>"


text \<open>A store in which every allocated reference is below \<open>next_ref\<close>.\<close>

definition store_ok :: "store \<Rightarrow> bool" where
  "store_ok s = (\<forall>r \<in> dom (cells s). r < next_ref s)"

definition sample_store :: store where
  "sample_store =
     \<lparr>cells = [0 \<mapsto> [user_message ''how do I boil an egg'']],
      next_ref = 1\<rparr>"

definition sample_strip :: "string \<Rightarrow> string" where
  "sample_strip t =
     rev (dropWhile (\<lambda>c. c = CHR '' '') (rev (dropWhile (\<lambda>c. c = CHR '' '') t)))"

text \<open>
  The record the collector builds from a sequence number \<open>n\<close>, the index \<open>i\<close> of a tuple
  and a query string; the list a future contributes (nothing when it raised); and the
  query strings of the futures in the order collected, each with the index of its tuple.
\<close>

definition regular_record :: "DimensionTuple list \<Rightarrow> nat \<times> nat \<times> string \<Rightarrow> QueryWithDimensions" where
  "regular_record dts = (\<lambda>(n, i, q).
     \<lparr>id' = ''SYN'' @ format_03d n,
      query = q,
      dimension_tuple = Some (dts ! i),
      query_type = ''regular'',
      is_realistic_and_kept = 1,
      notes_for_filtering = ''''\<rparr>)"

definition contribution :: "(nat \<Rightarrow> exn + string list) \<Rightarrow> nat \<Rightarrow> string list" where
  "contribution future_result i = (case future_result i of Inl e \<Rightarrow> [] | Inr qs \<Rightarrow> qs)"

definition tagged :: "(nat \<Rightarrow> string list) \<Rightarrow> nat list \<Rightarrow> (nat \<times> string) list" where
  "tagged qs order = concat (map (\<lambda>i. map (Pair i) (qs i)) order)"

text \<open>
  Sample providers for the tasks of the fan-out: one whose task 0 fails twice and then
  answers, one whose task 0 fails on every attempt; every other task is answered at once.
\<close>

definition sample_flaky_tasks :: "nat \<Rightarrow> completion_fn" where
  "sample_flaky_tasks i k model msgs =
     (if i = 0 \<and> k < 2 then Inl (Exception ''RateLimitError'') else Inr ''payload'')"

definition sample_failing_tasks :: "nat \<Rightarrow> completion_fn" where
  "sample_failing_tasks i k model msgs =
     (if i = 0 then Inl (Exception ''RateLimitError'') else Inr ''payload'')"

definition sample_queries_schema :: "QueriesList response_format" where
  "sample_queries_schema content =
     (if content = ''payload'' then Inr \<lparr>queries = [''vegan dinner fast'', ''easy lunch pls'']\<rparr>
      else Inl (Exception ''ValidationError''))"

text \<open>
  Reading a decimal numeral back: the number a string of digits denotes. Used to state
  that an identifier ends in its sequence number.
\<close>

definition digit_value :: "char \<Rightarrow> nat" where
  "digit_value c = length (takeWhile (\<lambda>d. d \<noteq> c) ''0123456789'')"

definition parse_nat :: "string \<Rightarrow> nat" where
  "parse_nat s = foldl (\<lambda>a c. 10 * a + digit_value c) 0 s"

text \<open>
  A sample run: the credential is set; the provider returns three tuples, the third a
  repetition of the first; every task is answered with two query strings (task 0 at its
  third attempt); the ambiguous call is answered, the adversarial call fails on every
  attempt.
\<close>

definition sample_world :: world where
  "sample_world =
     \<lparr>os_environ = {''OPENAI_API_KEY''},
      file_parent = [''homeworks'', ''hw2''],
      strftime_now = ''20250101_120000'',
      pydantic_dump = sample_dump,
      prompt_tuples = ''tuples'',
      prompt_queries = (\<lambda>t. ''queries''),
      prompt_ambiguous = (\<lambda>n. ''ambiguous''),
      prompt_adversarial = (\<lambda>n. ''adversarial''),
      schema_tuples = (\<lambda>content. Inr \<lparr>tuples = [sample_vegan, sample_keto, sample_vegan]\<rparr>),
      schema_queries = sample_queries_schema,
      llm_tuples = (\<lambda>k model msgs. Inr ''payload''),
      llm_task = sample_flaky_tasks,
      llm_ambiguous = (\<lambda>k model msgs. Inr ''payload''),
      llm_adversarial = (\<lambda>k model msgs. Inl (Exception ''Timeout'')),
      pool_scheduler = (\<lambda>k. 1),
      random_draws = (\<lambda>k. k)\<rparr>"

text \<open>The four generator calls of \<^verbatim>\<open>main\<close>, with their arguments taken from the world.\<close>

abbreviation tuples_stage :: "world \<Rightarrow> DimensionTuple list \<times> printed list" where
  "tuples_stage w \<equiv>
     generate_dimension_tuples (pydantic_dump w) (prompt_tuples w) (llm_tuples w) (schema_tuples w)"

abbreviation regular_stage :: "world \<Rightarrow> QueryWithDimensions list \<times> printed list" where
  "regular_stage w \<equiv>
     generate_queries_parallel (prompt_queries w) (llm_task w) (schema_queries w)
       (pool_scheduler w) (fst (tuples_stage w))"

abbreviation ambiguous_stage :: "world \<Rightarrow> string list \<times> printed list" where
  "ambiguous_stage w \<equiv>
     generate_ambiguous_queries (prompt_ambiguous w) (llm_ambiguous w) (schema_queries w)
       NUM_AMBIGUOUS_QUERIES"

abbreviation adversarial_stage :: "world \<Rightarrow> string list \<times> printed list" where
  "adversarial_stage w \<equiv>
     generate_adversarial_queries (prompt_adversarial w) (llm_adversarial w) (schema_queries w)
       NUM_ADVERSARIAL_QUERIES"

text \<open>The merged sequence of a run that reaches the merge, before the shuffle.\<close>

definition merged :: "world \<Rightarrow> QueryWithDimensions list" where
  "merged w =
     fst (regular_stage w)
     @ map ambiguous_record (enumerate 0 (fst (ambiguous_stage w)))
     @ map adversarial_record (enumerate 0 (fst (adversarial_stage w)))"

definition output_path :: "world \<Rightarrow> string list" where
  "output_path w =
     file_parent w @ [''synthetic_queries_for_analysis'' @ ''_'' @ strftime_now w @ ''.'' @ ''csv'']"

text \<open>
  The record invariant, as the specification words it: the category is one of the three
  tags; the identifier is the prefix of the category followed by the zero-padded form of
  a sequence number from 1 on; the dimension tuple is present exactly for the regular
  category; the kept flag has its default 1 and the note its default, the empty string.
\<close>

definition category_prefix :: "string \<Rightarrow> string" where
  "category_prefix category =
     (if category = ''regular'' then ''SYN''
      else if category = ''ambiguous'' then ''AMB'' else ''ADV'')"

definition record_invariant :: "QueryWithDimensions \<Rightarrow> bool" where
  "record_invariant q =
     (query_type q \<in> {''regular'', ''ambiguous'', ''adversarial''}
      \<and> id' q = category_prefix (query_type q) @ format_03d (parse_nat (drop 3 (id' q)))
      \<and> 1 \<le> parse_nat (drop 3 (id' q))
      \<and> (dimension_tuple q \<noteq> None) = (query_type q = ''regular'')
      \<and> is_realistic_and_kept q = 1
      \<and> notes_for_filtering q = '''')"

text \<open>All the records a run created, in the order of the merge.\<close>

definition created :: "run \<Rightarrow> QueryWithDimensions list" where
  "created r = run_regular r @ run_ambiguous r @ run_adversarial r"

section \<open>Properties of the structured call wrapper\<close>

lemma range_max_retries: "[0..<max_retries] = [0, 1, 2]"
  by (simp add: max_retries_def upt_rec)

lemma call_llm_unfold:
  "call_llm c m f =
     (case try_attempt c m f 0 of
        Inr v \<Rightarrow> (Inr (Some v), [Invoke MODEL_NAME m])
      | Inl e0 \<Rightarrow>
         (case try_attempt c m f 1 of
            Inr v \<Rightarrow> (Inr (Some v), [Invoke MODEL_NAME m, Sleep 1, Invoke MODEL_NAME m])
          | Inl e1 \<Rightarrow>
             (case try_attempt c m f 2 of
                Inr v \<Rightarrow> (Inr (Some v),
                   [Invoke MODEL_NAME m, Sleep 1, Invoke MODEL_NAME m, Sleep 1, Invoke MODEL_NAME m])
              | Inl e2 \<Rightarrow> (Inl e2,
                   [Invoke MODEL_NAME m, Sleep 1, Invoke MODEL_NAME m, Sleep 1, Invoke MODEL_NAME m]))))"
  unfolding call_llm_def range_max_retries
  by (simp add: invocations_def max_retries_def Let_def eval_nat_numeral split: sum.splits)


lemma call_llm_first_success:
  "try_attempt c m f 0 = Inr v \<Longrightarrow> fst (call_llm c m f) = Inr (Some v)"
  by (simp add: call_llm_unfold)

lemma call_llm_all_fail:
  "try_attempt c m f 0 = Inl e0 \<Longrightarrow> try_attempt c m f 1 = Inl e1 \<Longrightarrow> try_attempt c m f 2 = Inl e2
     \<Longrightarrow> fst (call_llm c m f) = Inl e2"
  by (simp add: call_llm_unfold)



section \<open>Properties of the dimension tuple generator\<close>

lemma dedup_loop_keep_unseen:
  "dedup_loop ser xs seen acc = acc @ keep_unseen ser seen xs"
  by (induction xs arbitrary: seen acc) (simp_all add: Let_def)

lemma keep_unseen_positions:
  "keep_unseen key seen xs =
     map ((!) xs) (filter (\<lambda>i. key (xs ! i) \<notin> seen \<union> key ` set (take i xs)) [0..<length xs])"
proof (induction xs arbitrary: seen)
  case Nil
  show ?case by simp
next
  case (Cons x xs)
  have split: "[0..<length (x # xs)] = 0 # map Suc [0..<length xs]"
    by (simp add: upt_conv_Cons map_Suc_upt del: upt_Suc)
  have shifted: "map ((!) (x # xs))
        (filter (\<lambda>i. key ((x # xs) ! i) \<notin> seen \<union> key ` set (take i (x # xs)))
           (map Suc [0..<length xs]))
      = map ((!) xs)
        (filter (\<lambda>i. key (xs ! i) \<notin> insert (key x) seen \<union> key ` set (take i xs))
           [0..<length xs])"
    by (simp add: filter_map comp_def conj_commute conj_left_commute)
  show ?case
  proof (cases "key x \<in> seen")
    case True
    then have "insert (key x) seen = seen" by (simp add: insert_absorb)
    with True Cons.IH [of seen] shifted show ?thesis
      unfolding split by simp
  next
    case False
    with Cons.IH [of "insert (key x) seen"] shifted show ?thesis
      unfolding split by simp
  qed
qed

lemma keep_unseen_first_occurrences: "keep_unseen key {} xs = first_occurrences key xs"
  by (simp add: keep_unseen_positions first_occurrences_def)

lemma keep_unseen_keys: "key ` set (keep_unseen key seen xs) = key ` set xs - seen"
  by (induction xs arbitrary: seen) auto

lemma keep_unseen_distinct: "distinct (map key (keep_unseen key seen xs))"
  by (induction xs arbitrary: seen) (auto simp: keep_unseen_keys)

lemma keep_unseen_subseq: "subseq (keep_unseen key seen xs) xs"
  by (induction xs arbitrary: seen) auto

lemma generate_dimension_tuples_success:
  "fst (call_llm completion [user_message prompt] response_format) = Inr (Some response)
     \<Longrightarrow> generate_dimension_tuples ser prompt completion response_format
         = (keep_unseen ser {} (tuples response), [])"
  by (simp add: generate_dimension_tuples_def dedup_loop_keep_unseen)

lemma generate_dimension_tuples_failure:
  "fst (call_llm completion [user_message prompt] response_format) = Inl e
     \<Longrightarrow> generate_dimension_tuples ser prompt completion response_format
         = ([], [ErrorGeneratingTuples e])"
  by (simp add: generate_dimension_tuples_def)

text \<open>
  Claim C2. When the wrapper returns a response, \<^verbatim>\<open>generate_dimension_tuples\<close> returns
  the tuples of the response at the positions whose serialisation does not occur at an
  earlier position, in the order of the response. The result is a subsequence of the
  response, no two of its tuples have the same serialisation, every serialisation of the
  response is still represented, and so its length is the number of distinct
  serialisations: nothing else is dropped.
\<close>

theorem generate_dimension_tuples_first_occurrences:
  assumes "fst (call_llm completion [user_message prompt] response_format) = Inr (Some response)"
  shows "fst (generate_dimension_tuples ser prompt completion response_format)
           = first_occurrences ser (tuples response)
         \<and> subseq (fst (generate_dimension_tuples ser prompt completion response_format))
             (tuples response)
         \<and> distinct (map ser (fst (generate_dimension_tuples ser prompt completion response_format)))
         \<and> ser ` set (fst (generate_dimension_tuples ser prompt completion response_format))
             = ser ` set (tuples response)
         \<and> length (fst (generate_dimension_tuples ser prompt completion response_format))
             = card (ser ` set (tuples response))"
proof -
  let ?r = "fst (generate_dimension_tuples ser prompt completion response_format)"
  have r: "?r = keep_unseen ser {} (tuples response)"
    using assms by (simp add: generate_dimension_tuples_success)
  have keys: "ser ` set ?r = ser ` set (tuples response)"
    unfolding r by (simp add: keep_unseen_keys)
  have dist: "distinct (map ser ?r)"
    unfolding r by (rule keep_unseen_distinct)
  have "length ?r = length (map ser ?r)" by simp
  also have "\<dots> = card (set (map ser ?r))"
    using dist by (simp only: distinct_card)
  also have "\<dots> = card (ser ` set (tuples response))"
    using keys by simp
  finally have len: "length ?r = card (ser ` set (tuples response))" .
  have "subseq ?r (tuples response)"
    unfolding r by (rule keep_unseen_subseq)
  with r keys dist len show ?thesis
    by (simp add: keep_unseen_first_occurrences)
qed

text \<open>
  Witness for C2: the provider returns three tuples, the third a repetition of the first.
\<close>

theorem generate_dimension_tuples_first_occurrences_witness:
  "fst (generate_dimension_tuples sample_dump ''prompt'' (\<lambda>k model msgs. Inr ''payload'')
          (\<lambda>content. Inr \<lparr>tuples = [sample_vegan, sample_keto, sample_vegan]\<rparr>))
     = [sample_vegan, sample_keto]"
proof -
  have ok: "fst (call_llm (\<lambda>k model msgs. Inr ''payload'') [user_message ''prompt'']
                  (\<lambda>content. Inr \<lparr>tuples = [sample_vegan, sample_keto, sample_vegan]\<rparr>))
            = Inr (Some \<lparr>tuples = [sample_vegan, sample_keto, sample_vegan]\<rparr>)"
    by (simp add: call_llm_unfold try_attempt_def)
  have firsts: "first_occurrences sample_dump [sample_vegan, sample_keto, sample_vegan]
                = [sample_vegan, sample_keto]"
    by (simp add: first_occurrences_def upt_rec sample_dump_def sample_vegan_def sample_keto_def)
  from generate_dimension_tuples_first_occurrences [OF ok, of sample_dump] firsts
  show ?thesis by simp
qed

section \<open>Properties of persistence\<close>






section \<open>Properties of the chatbot wrapper\<close>


lemma get_agent_response_prepend:
  assumes "cells s messages = Some ms" and "messages < next_ref s"
    and "lacks_system_prompt ms = Inr True"
  shows "get_agent_response P model completion strip messages s =
     (case completion model (system_message P # ms) of
        Inl e \<Rightarrow>
          (Inl e, s\<lparr>cells := (cells s)(next_ref s \<mapsto> [system_message P],
                                       Suc (next_ref s) \<mapsto> system_message P # ms),
                    next_ref := Suc (Suc (next_ref s))\<rparr>)
      | Inr content \<Rightarrow>
          (Inr (Suc (Suc (Suc (next_ref s)))),
           s\<lparr>cells := (cells s)(next_ref s \<mapsto> [system_message P],
                  Suc (next_ref s) \<mapsto> system_message P # ms,
                  Suc (Suc (next_ref s)) \<mapsto> [assistant_message (strip content)],
                  Suc (Suc (Suc (next_ref s)))
                    \<mapsto> system_message P # ms @ [assistant_message (strip content)]),
              next_ref := Suc (Suc (Suc (Suc (next_ref s))))\<rparr>))"
  using assms
  by (simp add: get_agent_response_def new_list_def list_add_def deref_def split: sum.splits)

lemma get_agent_response_keep:
  assumes "cells s messages = Some ms" and "messages < next_ref s"
    and "lacks_system_prompt ms = Inr False"
  shows "get_agent_response P model completion strip messages s =
     (case completion model ms of
        Inl e \<Rightarrow> (Inl e, s)
      | Inr content \<Rightarrow>
          (Inr (Suc (next_ref s)),
           s\<lparr>cells := (cells s)(next_ref s \<mapsto> [assistant_message (strip content)],
                  Suc (next_ref s) \<mapsto> ms @ [assistant_message (strip content)]),
              next_ref := Suc (Suc (next_ref s))\<rparr>))"
  using assms
  by (simp add: get_agent_response_def new_list_def list_add_def deref_def split: sum.splits)

lemma get_agent_response_KeyError:
  assumes "cells s messages = Some ms" and "lacks_system_prompt ms = Inl e"
  shows "get_agent_response P model completion strip messages s = (Inl e, s)"
  using assms by (simp add: get_agent_response_def deref_def)






text \<open>
  Claim C10. The call writes no list that existed before it: every reference allocated
  in the store before the call denotes the same list after it, on every path (return or
  exception). In particular the caller's list is unchanged, and a returned reference is
  one that was not allocated before, so it is not the caller's.
\<close>

theorem get_agent_response_frame:
  assumes "cells s messages = Some ms" and "store_ok s"
  shows "cells (snd (get_agent_response P model completion strip messages s)) messages = Some ms
       \<and> (\<forall>r \<in> dom (cells s).
            cells (snd (get_agent_response P model completion strip messages s)) r = cells s r)
       \<and> (\<forall>updated. fst (get_agent_response P model completion strip messages s) = Inr updated
            \<longrightarrow> updated \<notin> dom (cells s) \<and> updated \<noteq> messages)"
proof -
  from assms have below: "messages < next_ref s"
    by (auto simp: store_ok_def)
  from assms(2) have fresh: "\<And>r. r \<in> dom (cells s) \<Longrightarrow> r < next_ref s"
    by (simp add: store_ok_def)
  have frame: "(\<forall>r \<in> dom (cells s).
            cells (snd (get_agent_response P model completion strip messages s)) r = cells s r)
       \<and> (\<forall>updated. fst (get_agent_response P model completion strip messages s) = Inr updated
            \<longrightarrow> updated \<notin> dom (cells s))"
  proof (cases "lacks_system_prompt ms")
    case (Inl e)
    show ?thesis
      by (simp add: get_agent_response_KeyError [OF assms(1) Inl])
  next
    case (Inr b)
    show ?thesis
    proof (cases b)
      case True
      with Inr have r: "lacks_system_prompt ms = Inr True" by simp
      show ?thesis
        using fresh
        by (fastforce simp: get_agent_response_prepend [OF assms(1) below r] split: sum.splits)
    next
      case False
      with Inr have r: "lacks_system_prompt ms = Inr False" by simp
      show ?thesis
        using fresh
        by (fastforce simp: get_agent_response_keep [OF assms(1) below r] split: sum.splits)
    qed
  qed
  from assms(1) have "messages \<in> dom (cells s)" by auto
  with frame assms(1) show ?thesis by auto
qed

text \<open>
  Witness for C10: the conversation of the store of the sample begins with a system
  entry, so the wrapper passes the caller's own list to the provider; the list is
  unchanged all the same.
\<close>

theorem get_agent_response_frame_witness:
  "cells (sample_store\<lparr>cells := [0 \<mapsto> [system_message ''sys'', user_message ''hi'']]\<rparr>) 0
     = Some [system_message ''sys'', user_message ''hi'']
   \<and> store_ok (sample_store\<lparr>cells := [0 \<mapsto> [system_message ''sys'', user_message ''hi'']]\<rparr>)
   \<and> cells (snd (get_agent_response ''sys'' ''gpt-4.1-nano'' (\<lambda>model msgs. Inr ''hello'')
         sample_strip 0
         (sample_store\<lparr>cells := [0 \<mapsto> [system_message ''sys'', user_message ''hi'']]\<rparr>))) 0
     = Some [system_message ''sys'', user_message ''hi'']"
proof -
  let ?s = "sample_store\<lparr>cells := [0 \<mapsto> [system_message ''sys'', user_message ''hi'']]\<rparr>"
  have cell: "cells ?s 0 = Some [system_message ''sys'', user_message ''hi'']"
    by simp
  have ok: "store_ok ?s"
    by (simp add: sample_store_def store_ok_def)
  from get_agent_response_frame [OF cell ok] cell ok show ?thesis
    by blast
qed

section \<open>Properties of the regular query stage\<close>

lemma assemble_in_range:
  "tuple_idx < length dts \<Longrightarrow>
     assemble dts tuple_idx qs all_queries query_id =
       (None,
        all_queries @ map (regular_record dts) (enumerate query_id (map (Pair tuple_idx) qs)),
        query_id + length qs)"
  by (induction qs arbitrary: all_queries query_id) (simp_all add: regular_record_def)

lemma tagged_Cons: "tagged qs (i # order) = map (Pair i) (qs i) @ tagged qs order"
  by (simp add: tagged_def)

lemma length_tagged: "length (tagged qs order) = sum_list (map (\<lambda>i. length (qs i)) order)"
  by (induction order) (simp_all add: tagged_def)

lemma collect_futures_in_range:
  "\<forall>i \<in> set order. i < length dts \<Longrightarrow>
     collect_futures dts future_result order all_queries query_id log =
       (all_queries
          @ map (regular_record dts)
              (enumerate query_id (tagged (contribution future_result) order)),
        query_id + length (tagged (contribution future_result) order),
        log @ concat (map (\<lambda>i. case future_result i of
                                  Inl e \<Rightarrow> [TupleGeneratedException (i + 1) e]
                                | Inr qs \<Rightarrow> []) order))"
proof (induction order arbitrary: all_queries query_id log)
  case Nil
  show ?case by (simp add: tagged_def)
next
  case (Cons i order)
  from Cons.prems have i: "i < length dts" and rest: "\<forall>i \<in> set order. i < length dts"
    by simp_all
  note IH = Cons.IH [OF rest]
  show ?case
  proof (cases "future_result i")
    case (Inl e)
    then have "contribution future_result i = []"
      by (simp add: contribution_def)
    with Inl show ?thesis
      by (simp add: IH tagged_Cons)
  next
    case (Inr qs)
    then have c: "contribution future_result i = qs"
      by (simp add: contribution_def)
    show ?thesis
    proof (cases "qs = []")
      case True
      with Inr c show ?thesis
        by (simp add: IH tagged_Cons)
    next
      case False
      with Inr c show ?thesis
        by (simp add: IH tagged_Cons assemble_in_range [OF i] enumerate_append_eq add.assoc)
    qed
  qed
qed

lemma mset_as_completed: "mset (as_completed sched k pending) = mset pending"
proof (induction sched k pending rule: as_completed.induct)
  case (1 sched k pending)
  show ?case
  proof (cases "pending = []")
    case True
    then show ?thesis by (simp add: as_completed.simps)
  next
    case False
    let ?future = "pending ! (sched k mod length pending)"
    from False have member: "?future \<in> set pending"
      by simp
    have "mset (as_completed sched (k + 1) (remove1 ?future pending))
        = mset (remove1 ?future pending)"
      using "1.IH" [OF False refl] .
    with False member show ?thesis
      by (subst as_completed.simps) (simp add: Let_def)
  qed
qed

lemma set_as_completed: "set (as_completed sched k [0..<n]) = {0..<n}"
proof -
  have "set (as_completed sched k [0..<n]) = set_mset (mset (as_completed sched k [0..<n]))"
    by simp
  also have "\<dots> = set [0..<n]"
    by (simp only: mset_as_completed set_mset_mset)
  finally show ?thesis by simp
qed

lemma length_as_completed: "length (as_completed sched k pending) = length pending"
  using mset_as_completed [of sched k pending] by (rule mset_eq_length)

lemma generate_queries_parallel_records:
  "fst (generate_queries_parallel prompt task_completion response_format sched dts) =
     map (regular_record dts)
       (enumerate 1
          (tagged (\<lambda>i. fst (generate_queries_for_tuple prompt (task_completion i)
                              response_format (dts ! i)))
             (as_completed sched 0 [0..<length dts])))"
proof -
  have range: "\<forall>i \<in> set (as_completed sched 0 [0..<length dts]). i < length dts"
    by (simp add: set_as_completed)
  have c: "contribution (\<lambda>i. Inr (fst (generate_queries_for_tuple prompt (task_completion i)
               response_format (dts ! i))))
         = (\<lambda>i. fst (generate_queries_for_tuple prompt (task_completion i)
               response_format (dts ! i)))"
    by (simp add: contribution_def fun_eq_iff)
  show ?thesis
    unfolding generate_queries_parallel_def Let_def
    by (simp add: collect_futures_in_range [OF range] c)
qed

lemma record_ids:
  "map id' (map (regular_record dts) (enumerate n xs))
     = map (\<lambda>m. ''SYN'' @ format_03d m) [n..<n + length xs]"
proof (induction xs arbitrary: n)
  case Nil
  show ?case by simp
next
  case (Cons x xs)
  have "[n..<n + length (x # xs)] = n # [Suc n..<Suc n + length xs]"
    by (subst upt_conv_Cons) simp_all
  with Cons.IH [of "Suc n"] show ?case
    by (simp add: regular_record_def split_beta)
qed

lemma record_payload:
  "map (\<lambda>r. (dimension_tuple r, query r)) (map (regular_record dts) (enumerate n xs))
     = map (\<lambda>(i, q). (Some (dts ! i), q)) xs"
  by (induction xs arbitrary: n) (simp_all add: regular_record_def split_beta)

lemma tagged_payload:
  "map (\<lambda>(i, q). (Some (dts ! i), q)) (tagged qs order)
     = concat (map (\<lambda>i. map (\<lambda>q. (Some (dts ! i), q)) (qs i)) order)"
  by (induction order) (simp_all add: tagged_def)


lemma sum_list_permuted:
  assumes "mset xs = mset ys"
  shows "sum_list (map f xs) = sum_list (map (f :: nat \<Rightarrow> nat) ys)"
proof -
  have "sum_list (map f xs) = sum_mset (image_mset f (mset xs))"
    by (simp flip: sum_mset_sum_list)
  also have "\<dots> = sum_mset (image_mset f (mset ys))"
    by (simp only: assms)
  also have "\<dots> = sum_list (map f ys)"
    by (simp flip: sum_mset_sum_list)
  finally show ?thesis .
qed

lemma generate_queries_parallel_length:
  "length (fst (generate_queries_parallel prompt task_completion response_format sched dts))
     = sum_list (map (\<lambda>i. length (fst (generate_queries_for_tuple prompt (task_completion i)
                                           response_format (dts ! i))))
                  [0..<length dts])"
  by (simp add: generate_queries_parallel_records length_tagged
      sum_list_permuted [OF mset_as_completed])

lemma generate_queries_for_tuple_success:
  "fst (call_llm completion [user_message (prompt t)] response_format) = Inr (Some response)
     \<Longrightarrow> generate_queries_for_tuple prompt completion response_format t = (queries response, [])"
  by (simp add: generate_queries_for_tuple_def)

lemma generate_queries_for_tuple_failure:
  "fst (call_llm completion [user_message (prompt t)] response_format) = Inl e
     \<Longrightarrow> generate_queries_for_tuple prompt completion response_format t
         = ([], [ErrorGeneratingQueriesForTuple e])"
  by (simp add: generate_queries_for_tuple_def)



text \<open>
  Claim C7. A task whose call of the wrapper fails returns the empty list, and a future
  that raises is skipped by the collector: either way that tuple contributes no record,
  while the query strings of every other task are collected unchanged, each with its own
  tuple, every future exactly once. With two tuples of which one fails and the other
  returns a response, the stage yields exactly the records of that response.
\<close>

theorem generate_queries_parallel_isolation:
  "(\<forall>i e. fst (call_llm (task_completion i) [user_message (prompt (dts ! i))] response_format)
             = Inl e
        \<longrightarrow> fst (generate_queries_for_tuple prompt (task_completion i) response_format (dts ! i))
             = [])
   \<and> (\<forall>i response.
         fst (call_llm (task_completion i) [user_message (prompt (dts ! i))] response_format)
             = Inr (Some response)
        \<longrightarrow> fst (generate_queries_for_tuple prompt (task_completion i) response_format (dts ! i))
             = queries response)
   \<and> mset (as_completed sched 0 [0..<length dts]) = mset [0..<length dts]
   \<and> map (\<lambda>r. (dimension_tuple r, query r))
         (fst (generate_queries_parallel prompt task_completion response_format sched dts))
       = concat (map (\<lambda>i. map (\<lambda>q. (Some (dts ! i), q))
                             (fst (generate_queries_for_tuple prompt (task_completion i)
                                     response_format (dts ! i))))
                   (as_completed sched 0 [0..<length dts]))
   \<and> (\<forall>i j e response.
         length dts = 2 \<and> i < 2 \<and> j < 2 \<and> i \<noteq> j
         \<and> fst (call_llm (task_completion i) [user_message (prompt (dts ! i))] response_format)
             = Inl e
         \<and> fst (call_llm (task_completion j) [user_message (prompt (dts ! j))] response_format)
             = Inr (Some response)
        \<longrightarrow> length (fst (generate_queries_parallel prompt task_completion response_format
                           sched dts))
             = length (queries response))
   \<and> (\<forall>future_result order.
         (\<forall>i \<in> set order. i < length dts)
        \<longrightarrow> map (\<lambda>r. (dimension_tuple r, query r))
              (fst (collect_futures dts future_result order [] 1 []))
             = concat (map (\<lambda>i. case future_result i of
                                    Inl e \<Rightarrow> []
                                  | Inr qs \<Rightarrow> map (\<lambda>q. (Some (dts ! i), q)) qs) order))"
proof (intro conjI allI impI)
  fix i e
  assume "fst (call_llm (task_completion i) [user_message (prompt (dts ! i))] response_format)
      = Inl e"
  then show "fst (generate_queries_for_tuple prompt (task_completion i) response_format (dts ! i))
      = []"
    by (simp add: generate_queries_for_tuple_failure)
next
  fix i response
  assume "fst (call_llm (task_completion i) [user_message (prompt (dts ! i))] response_format)
      = Inr (Some response)"
  then show "fst (generate_queries_for_tuple prompt (task_completion i) response_format (dts ! i))
      = queries response"
    by (simp add: generate_queries_for_tuple_success)
next
  show "mset (as_completed sched 0 [0..<length dts]) = mset [0..<length dts]"
    by (rule mset_as_completed)
next
  show "map (\<lambda>r. (dimension_tuple r, query r))
         (fst (generate_queries_parallel prompt task_completion response_format sched dts))
       = concat (map (\<lambda>i. map (\<lambda>q. (Some (dts ! i), q))
                             (fst (generate_queries_for_tuple prompt (task_completion i)
                                     response_format (dts ! i))))
                   (as_completed sched 0 [0..<length dts]))"
    by (simp only: generate_queries_parallel_records record_payload tagged_payload)
next
  fix i j e response
  assume a: "length dts = 2 \<and> i < 2 \<and> j < 2 \<and> i \<noteq> j
     \<and> fst (call_llm (task_completion i) [user_message (prompt (dts ! i))] response_format)
         = Inl e
     \<and> fst (call_llm (task_completion j) [user_message (prompt (dts ! j))] response_format)
         = Inr (Some response)"
  let ?len = "\<lambda>i. length (fst (generate_queries_for_tuple prompt (task_completion i)
      response_format (dts ! i)))"
  from a have failed: "?len i = 0"
    by (simp add: generate_queries_for_tuple_failure)
  from a have answered: "?len j = length (queries response)"
    by (simp add: generate_queries_for_tuple_success)
  from a have "(i = 0 \<and> j = 1) \<or> (i = 1 \<and> j = 0)"
    by auto
  with failed answered have "?len 0 + ?len 1 = length (queries response)"
    by auto
  moreover from a have "[0..<length dts] = [0, 1]"
    by (simp add: upt_rec)
  ultimately show "length (fst (generate_queries_parallel prompt task_completion
      response_format sched dts)) = length (queries response)"
    by (simp add: generate_queries_parallel_length)
next
  fix future_result :: "nat \<Rightarrow> exn + string list" and order
  assume range: "\<forall>i \<in> set order. i < length dts"
  have "map (\<lambda>r. (dimension_tuple r, query r))
        (fst (collect_futures dts future_result order [] 1 []))
      = map (\<lambda>r. (dimension_tuple r, query r))
          (map (regular_record dts) (enumerate 1 (tagged (contribution future_result) order)))"
    by (simp only: collect_futures_in_range [OF range] fst_conv append_Nil)
  also have "\<dots> = map (\<lambda>(i, q). (Some (dts ! i), q)) (tagged (contribution future_result) order)"
    by (rule record_payload)
  also have "\<dots>
      = concat (map (\<lambda>i. map (\<lambda>q. (Some (dts ! i), q)) (contribution future_result i)) order)"
    by (rule tagged_payload)
  also have "\<dots> = concat (map (\<lambda>i. case future_result i of
                            Inl e \<Rightarrow> []
                          | Inr qs \<Rightarrow> map (\<lambda>q. (Some (dts ! i), q)) qs) order)"
    by (rule arg_cong [where f = concat]) (simp add: contribution_def split: sum.splits)
  finally show "map (\<lambda>r. (dimension_tuple r, query r))
        (fst (collect_futures dts future_result order [] 1 []))
      = concat (map (\<lambda>i. case future_result i of
                            Inl e \<Rightarrow> []
                          | Inr qs \<Rightarrow> map (\<lambda>q. (Some (dts ! i), q)) qs) order)" .
qed

text \<open>
  Witness for C7: two tuples; the task of the first fails on all three attempts, the
  task of the second is answered with two query strings.
\<close>

theorem generate_queries_parallel_isolation_witness:
  "length [sample_vegan, sample_keto] = 2
   \<and> fst (call_llm (sample_failing_tasks 0) [user_message ''prompt''] sample_queries_schema)
       = Inl (Exception ''RateLimitError'')
   \<and> fst (call_llm (sample_failing_tasks 1) [user_message ''prompt''] sample_queries_schema)
       = Inr (Some \<lparr>queries = [''vegan dinner fast'', ''easy lunch pls'']\<rparr>)
   \<and> length (fst (generate_queries_parallel (\<lambda>t. ''prompt'') sample_failing_tasks
                sample_queries_schema (\<lambda>k. 0) [sample_vegan, sample_keto])) = 2"
proof -
  have failed: "fst (call_llm (sample_failing_tasks 0) [user_message ''prompt'']
      sample_queries_schema) = Inl (Exception ''RateLimitError'')"
    by (simp add: call_llm_unfold try_attempt_def sample_failing_tasks_def)
  have answered: "fst (call_llm (sample_failing_tasks 1) [user_message ''prompt'']
      sample_queries_schema) = Inr (Some \<lparr>queries = [''vegan dinner fast'', ''easy lunch pls'']\<rparr>)"
    by (simp add: call_llm_unfold try_attempt_def sample_failing_tasks_def
        sample_queries_schema_def)
  from generate_queries_parallel_isolation [where dts = "[sample_vegan, sample_keto]"
      and task_completion = sample_failing_tasks and prompt = "\<lambda>t. ''prompt''"
      and response_format = sample_queries_schema and sched = "\<lambda>k. 0"]
  have "\<forall>i j e response.
         length [sample_vegan, sample_keto] = 2 \<and> i < 2 \<and> j < 2 \<and> i \<noteq> j
         \<and> fst (call_llm (sample_failing_tasks i) [user_message ''prompt''] sample_queries_schema)
             = Inl e
         \<and> fst (call_llm (sample_failing_tasks j) [user_message ''prompt''] sample_queries_schema)
             = Inr (Some response)
        \<longrightarrow> length (fst (generate_queries_parallel (\<lambda>t. ''prompt'') sample_failing_tasks
                sample_queries_schema (\<lambda>k. 0) [sample_vegan, sample_keto]))
             = length (queries response)"
    by blast
  from this [rule_format, of 0 1 "Exception ''RateLimitError''"
      "\<lparr>queries = [''vegan dinner fast'', ''easy lunch pls'']\<rparr>"] failed answered
  show ?thesis
    by simp
qed

section \<open>Properties of the identifiers\<close>

lemma digit_value_digit_char: "d < 10 \<Longrightarrow> digit_value (digit_char d) = d"
proof -
  assume "d < 10"
  then have "d \<in> {0, 1, 2, 3, 4, 5, 6, 7, 8, 9}"
    by auto
  then show ?thesis
    by (auto simp: digit_value_def digit_char_def)
qed

lemma parse_nat_snoc: "parse_nat (s @ [c]) = 10 * parse_nat s + digit_value c"
  by (simp add: parse_nat_def)

lemma parse_nat_str_nat: "parse_nat (str_nat n) = n"
proof (induction n rule: str_nat.induct)
  case (1 n)
  show ?case
  proof (cases "n < 10")
    case True
    then show ?thesis
      by (subst str_nat.simps) (simp add: parse_nat_def digit_value_digit_char)
  next
    case False
    with "1.IH" have "parse_nat (str_nat (n div 10)) = n div 10"
      by simp
    with False show ?thesis
      by (subst str_nat.simps) (simp add: parse_nat_snoc digit_value_digit_char)
  qed
qed

lemma parse_nat_leading_zeros: "parse_nat (replicate k (CHR ''0'') @ s) = parse_nat s"
proof -
  have "foldl (\<lambda>a c. 10 * a + digit_value c) 0 (replicate k (CHR ''0'')) = 0"
    by (induction k) (simp_all add: digit_value_def)
  then show ?thesis
    by (simp add: parse_nat_def)
qed

lemma parse_nat_format_03d: "parse_nat (format_03d n) = n"
  by (simp add: format_03d_def parse_nat_leading_zeros parse_nat_str_nat)

lemma format_03d_inj: "format_03d n = format_03d m \<Longrightarrow> n = m"
  by (metis parse_nat_format_03d)

lemma length_format_03d: "3 \<le> length (format_03d n)"
  by (simp add: format_03d_def)

lemma distinct_numbered:
  "distinct (map (\<lambda>n. tag @ format_03d (f n)) ns)" if "distinct ns" and "inj_on f (set ns)"
proof -
  have "inj_on (\<lambda>n. tag @ format_03d (f n)) (set ns)"
    using that(2) by (auto simp: inj_on_def dest: format_03d_inj)
  with that(1) show ?thesis
    by (simp add: distinct_map)
qed

section \<open>Properties of the orchestrator\<close>

lemma mset_shuffle_loop:
  "\<forall>i\<in>set indices. i < length x \<Longrightarrow> mset (shuffle_loop draws k indices x) = mset x"
proof (induction indices arbitrary: k x)
  case Nil
  show ?case by simp
next
  case (Cons i rest)
  let ?j = "draws k mod (i + 1)"
  let ?x' = "x[i := x ! ?j, ?j := x ! i]"
  from Cons.prems have i: "i < length x" and rest: "\<forall>i\<in>set rest. i < length ?x'"
    by simp_all
  have "?j < i + 1" by simp
  with i have j: "?j < length x" by linarith
  have "mset (shuffle_loop draws (k + 1) rest ?x') = mset ?x'"
    by (rule Cons.IH [OF rest])
  also have "mset ?x' = mset x"
    using j i by (rule mset_swap)
  finally show ?case by (simp add: Let_def)
qed

lemma mset_shuffle: "mset (shuffle draws x) = mset x"
  unfolding shuffle_def by (rule mset_shuffle_loop) auto

lemma length_shuffle: "length (shuffle draws x) = length x"
  using mset_shuffle [of draws x] by (rule mset_eq_length)

lemma main_no_credential:
  "''OPENAI_API_KEY'' \<notin> os_environ w \<Longrightarrow>
     main w fs = \<lparr>run_printed = [ApiKeyNotSet],
                  run_regular = [], run_ambiguous = [], run_adversarial = [],
                  run_saved = None, run_files = fs\<rparr>"
  by (simp add: main_def)

lemma main_abort:
  "''OPENAI_API_KEY'' \<in> os_environ w \<Longrightarrow> fst (tuples_stage w) = [] \<Longrightarrow>
     main w fs = \<lparr>run_printed = [Step1] @ snd (tuples_stage w) @ [FailedToGenerateTuples],
                  run_regular = [], run_ambiguous = [], run_adversarial = [],
                  run_saved = None, run_files = fs\<rparr>"
  by (simp add: main_def case_prod_beta)

lemma main_proceed:
  assumes "''OPENAI_API_KEY'' \<in> os_environ w" and "fst (tuples_stage w) \<noteq> []"
  shows "run_regular (main w fs) = fst (regular_stage w)"
    and "run_ambiguous (main w fs) = map ambiguous_record (enumerate 0 (fst (ambiguous_stage w)))"
    and "run_adversarial (main w fs)
           = map adversarial_record (enumerate 0 (fst (adversarial_stage w)))"
    and "run_saved (main w fs) = Some (shuffle (random_draws w) (merged w))"
    and "run_files (main w fs)
           = fst (save_queries_to_csv (pydantic_dump w) (shuffle (random_draws w) (merged w))
                    (output_path w)
                    (fs\<lparr>directories := directories fs \<union> set (prefixes (file_parent w))\<rparr>))"
    and "run_printed (main w fs)
           = [Step1] @ snd (tuples_stage w) @ [GeneratedTuples (length (fst (tuples_stage w))), Step2]
             @ snd (regular_stage w) @ [Step3] @ snd (ambiguous_stage w)
             @ [Step4] @ snd (adversarial_stage w)
             @ snd (save_queries_to_csv (pydantic_dump w) (shuffle (random_draws w) (merged w))
                    (output_path w)
                    (fs\<lparr>directories := directories fs \<union> set (prefixes (file_parent w))\<rparr>))
             @ [CompletedSuccessfully,
                GeneratedSummary (length (merged w)) (length (fst (regular_stage w)))
                  (length (fst (ambiguous_stage w))) (length (fst (adversarial_stage w)))]"
  using assms
  by (simp_all add: main_def case_prod_beta Let_def merged_def output_path_def
      get_output_csv_path_def length_shuffle)

lemma sample_tuples_stage: "fst (tuples_stage sample_world) = [sample_vegan, sample_keto]"
proof -
  have "fst (call_llm (llm_tuples sample_world) [user_message (prompt_tuples sample_world)]
               (schema_tuples sample_world))
        = Inr (Some \<lparr>tuples = [sample_vegan, sample_keto, sample_vegan]\<rparr>)"
    by (simp add: sample_world_def call_llm_unfold try_attempt_def)
  then have "fst (tuples_stage sample_world)
      = keep_unseen (pydantic_dump sample_world) {} [sample_vegan, sample_keto, sample_vegan]"
    by (simp add: generate_dimension_tuples_success)
  also have "\<dots> = [sample_vegan, sample_keto]"
    by (simp add: sample_world_def sample_dump_def sample_vegan_def sample_keto_def)
  finally show ?thesis .
qed

lemma sample_credential: "''OPENAI_API_KEY'' \<in> os_environ sample_world"
  by (simp add: sample_world_def)

lemma created_main:
  "created (main w fs)
     = (if ''OPENAI_API_KEY'' \<in> os_environ w \<and> fst (tuples_stage w) \<noteq> [] then merged w else [])"
proof (cases "''OPENAI_API_KEY'' \<in> os_environ w")
  case False
  then show ?thesis
    by (simp add: created_def main_no_credential)
next
  case True
  show ?thesis
  proof (cases "fst (tuples_stage w) = []")
    case empty: True
    with True show ?thesis
      by (simp add: created_def main_abort)
  next
    case False
    with True show ?thesis
      by (simp add: created_def main_proceed merged_def)
  qed
qed

lemma run_saved_main:
  "run_saved (main w fs)
     = (if ''OPENAI_API_KEY'' \<in> os_environ w \<and> fst (tuples_stage w) \<noteq> []
        then Some (shuffle (random_draws w) (merged w)) else None)"
proof (cases "''OPENAI_API_KEY'' \<in> os_environ w")
  case False
  then show ?thesis
    by (simp add: main_no_credential)
next
  case True
  show ?thesis
  proof (cases "fst (tuples_stage w) = []")
    case empty: True
    with True show ?thesis
      by (simp add: main_abort)
  next
    case False
    with True show ?thesis
      by (simp add: main_proceed)
  qed
qed

text \<open>
  Claim C4. Whenever \<^verbatim>\<open>main\<close> calls persistence, the sequence it hands over is the
  shuffle of the concatenation of the regular, ambiguous and adversarial sequences, and
  has the same multiset of records, hence the same multiset of identifiers, the same set
  and the same length: only the order may differ. The file system of the run is the one
  \<^verbatim>\<open>save_queries_to_csv\<close> leaves when given that sequence.
\<close>

theorem main_saves_permutation:
  assumes "run_saved (main w fs) = Some saved"
  shows "saved = shuffle (random_draws w) (created (main w fs))
       \<and> mset saved = mset (run_regular (main w fs) @ run_ambiguous (main w fs)
                             @ run_adversarial (main w fs))
       \<and> mset (map id' saved) = mset (map id' (run_regular (main w fs) @ run_ambiguous (main w fs)
                             @ run_adversarial (main w fs)))
       \<and> set saved = set (run_regular (main w fs) @ run_ambiguous (main w fs)
                             @ run_adversarial (main w fs))
       \<and> length saved = length (run_regular (main w fs)) + length (run_ambiguous (main w fs))
                             + length (run_adversarial (main w fs))
       \<and> run_files (main w fs)
           = fst (save_queries_to_csv (pydantic_dump w) saved (output_path w)
                    (fs\<lparr>directories := directories fs \<union> set (prefixes (file_parent w))\<rparr>))"
proof -
  from assms have reached: "''OPENAI_API_KEY'' \<in> os_environ w \<and> fst (tuples_stage w) \<noteq> []"
    by (simp add: run_saved_main split: if_splits)
  with assms have saved: "saved = shuffle (random_draws w) (merged w)"
    by (simp add: run_saved_main)
  from reached have all: "created (main w fs) = merged w"
    by (simp add: created_main)
  have perm: "mset saved = mset (created (main w fs))"
    by (simp only: saved all mset_shuffle)
  then have ids: "mset (map id' saved) = mset (map id' (created (main w fs)))"
    by (simp only: mset_map)
  from perm have elems: "set saved = set (created (main w fs))"
    by (rule mset_eq_setD)
  from perm have "length saved = length (created (main w fs))"
    by (rule mset_eq_length)
  then have len: "length saved = length (run_regular (main w fs))
      + length (run_ambiguous (main w fs)) + length (run_adversarial (main w fs))"
    by (simp add: created_def)
  from reached have "run_files (main w fs)
      = fst (save_queries_to_csv (pydantic_dump w) saved (output_path w)
               (fs\<lparr>directories := directories fs \<union> set (prefixes (file_parent w))\<rparr>))"
    by (simp add: main_proceed saved)
  with saved all perm ids elems len show ?thesis
    by (simp add: created_def)
qed

text \<open>Witness for C4: the sample run reaches persistence.\<close>

theorem main_saves_permutation_witness:
  "run_saved (main sample_world empty_fs)
     = Some (shuffle (random_draws sample_world) (merged sample_world))
   \<and> mset (shuffle (random_draws sample_world) (merged sample_world))
       = mset (run_regular (main sample_world empty_fs) @ run_ambiguous (main sample_world empty_fs)
               @ run_adversarial (main sample_world empty_fs))"
proof -
  have saved: "run_saved (main sample_world empty_fs)
      = Some (shuffle (random_draws sample_world) (merged sample_world))"
    by (simp add: run_saved_main sample_credential sample_tuples_stage)
  from main_saves_permutation [OF saved] saved show ?thesis
    by blast
qed

lemma tuples_stage_log:
  "snd (generate_dimension_tuples ser prompt completion response_format) = []
   \<or> (\<exists>e. snd (generate_dimension_tuples ser prompt completion response_format)
          = [ErrorGeneratingTuples e])"
  by (simp add: generate_dimension_tuples_def split: sum.splits option.splits)

lemma save_queries_to_csv_prints:
  "snd (save_queries_to_csv ser qs path fs) = [NoQueriesToSave]
   \<or> snd (save_queries_to_csv ser qs path fs) = [SavedQueries (length qs) path]"
  by (simp add: save_queries_to_csv_def)

text \<open>
  Claim C6. In a run that has its credential: if the tuple stage returns the empty
  sequence, \<^verbatim>\<open>main\<close> prints the failure and returns at once: nothing of a later stage
  is printed (no stage header, no line of persistence), no record is created,
  persistence is not called and the file system is as it was. That is the only way such a
  run ends without calling persistence. If the tuple stage returns tuples, persistence is
  called whatever the ambiguous and adversarial generators return: an empty category
  only leaves its share of the merged sequence empty.
\<close>

theorem main_fatal_only_without_tuples:
  assumes "''OPENAI_API_KEY'' \<in> os_environ w"
  shows "(fst (tuples_stage w) = [] \<longrightarrow>
            run_printed (main w fs) = [Step1] @ snd (tuples_stage w) @ [FailedToGenerateTuples]
            \<and> Step2 \<notin> set (run_printed (main w fs))
            \<and> Step3 \<notin> set (run_printed (main w fs))
            \<and> Step4 \<notin> set (run_printed (main w fs))
            \<and> NoQueriesToSave \<notin> set (run_printed (main w fs))
            \<and> (\<forall>n p. SavedQueries n p \<notin> set (run_printed (main w fs)))
            \<and> created (main w fs) = []
            \<and> run_saved (main w fs) = None
            \<and> run_files (main w fs) = fs)
       \<and> (run_saved (main w fs) = None) = (fst (tuples_stage w) = [])
       \<and> (fst (tuples_stage w) \<noteq> [] \<longrightarrow>
            run_saved (main w fs) = Some (shuffle (random_draws w) (created (main w fs)))
            \<and> FailedToGenerateTuples \<notin> set (snd (tuples_stage w))
            \<and> (NoQueriesToSave \<in> set (run_printed (main w fs))
                 \<or> SavedQueries (length (created (main w fs))) (output_path w)
                       \<in> set (run_printed (main w fs)))
            \<and> run_regular (main w fs) = fst (regular_stage w)
            \<and> length (run_ambiguous (main w fs)) = length (fst (ambiguous_stage w))
            \<and> length (run_adversarial (main w fs)) = length (fst (adversarial_stage w))
            \<and> (fst (ambiguous_stage w) = [] \<and> fst (adversarial_stage w) = [] \<longrightarrow>
                  created (main w fs) = run_regular (main w fs)))"
proof (intro conjI impI)
  assume empty: "fst (tuples_stage w) = []"
  note abort = main_abort [OF assms empty, of fs]
  show printed: "run_printed (main w fs)
      = [Step1] @ snd (tuples_stage w) @ [FailedToGenerateTuples]"
    by (simp add: abort)
  from tuples_stage_log [of "pydantic_dump w" "prompt_tuples w" "llm_tuples w" "schema_tuples w"]
  have log: "set (snd (tuples_stage w)) \<subseteq> range ErrorGeneratingTuples"
    by auto
  from log show "Step2 \<notin> set (run_printed (main w fs))"
    unfolding printed by auto
  from log show "Step3 \<notin> set (run_printed (main w fs))"
    unfolding printed by auto
  from log show "Step4 \<notin> set (run_printed (main w fs))"
    unfolding printed by auto
  from log show "NoQueriesToSave \<notin> set (run_printed (main w fs))"
    unfolding printed by auto
  from log show "\<forall>n p. SavedQueries n p \<notin> set (run_printed (main w fs))"
    unfolding printed by auto
  show "created (main w fs) = []"
    by (simp add: created_main empty)
  show "run_saved (main w fs) = None"
    by (simp add: abort)
  show "run_files (main w fs) = fs"
    by (simp add: abort)
next
  show "(run_saved (main w fs) = None) = (fst (tuples_stage w) = [])"
    using assms by (simp add: run_saved_main)
next
  assume tuples: "fst (tuples_stage w) \<noteq> []"
  note proceed = main_proceed [OF assms tuples, of fs]
  from assms tuples have all: "created (main w fs) = merged w"
    by (simp add: created_main)
  show "run_saved (main w fs) = Some (shuffle (random_draws w) (created (main w fs)))"
    by (simp add: proceed all)
  from tuples_stage_log [of "pydantic_dump w" "prompt_tuples w" "llm_tuples w" "schema_tuples w"]
  show "FailedToGenerateTuples \<notin> set (snd (tuples_stage w))"
    by auto
  from save_queries_to_csv_prints [of "pydantic_dump w" "shuffle (random_draws w) (merged w)"
      "output_path w" "fs\<lparr>directories := directories fs \<union> set (prefixes (file_parent w))\<rparr>"]
  show "NoQueriesToSave \<in> set (run_printed (main w fs))
      \<or> SavedQueries (length (created (main w fs))) (output_path w)
            \<in> set (run_printed (main w fs))"
    unfolding proceed(6) all by (auto simp: length_shuffle)
  show "run_regular (main w fs) = fst (regular_stage w)"
    by (rule proceed(1))
  show "length (run_ambiguous (main w fs)) = length (fst (ambiguous_stage w))"
    by (simp add: proceed)
  show "length (run_adversarial (main w fs)) = length (fst (adversarial_stage w))"
    by (simp add: proceed)
next
  assume tuples: "fst (tuples_stage w) \<noteq> []"
    and "fst (ambiguous_stage w) = [] \<and> fst (adversarial_stage w) = []"
  with main_proceed [OF assms tuples, of fs] show "created (main w fs) = run_regular (main w fs)"
    by (simp add: created_def)
qed

text \<open>
  Witness for C6: the sample run, whose adversarial generator returns nothing, reaches
  persistence; the same run with a provider that fails the tuple call ends at once.
\<close>

theorem main_fatal_only_without_tuples_witness:
  "''OPENAI_API_KEY'' \<in> os_environ sample_world
   \<and> fst (tuples_stage sample_world) \<noteq> []
   \<and> fst (adversarial_stage sample_world) = []
   \<and> run_saved (main sample_world empty_fs) \<noteq> None
   \<and> fst (tuples_stage (sample_world\<lparr>llm_tuples := (\<lambda>k model msgs. Inl (Exception ''Timeout''))\<rparr>))
       = []
   \<and> run_saved (main (sample_world\<lparr>llm_tuples := (\<lambda>k model msgs. Inl (Exception ''Timeout''))\<rparr>)
        empty_fs) = None
   \<and> run_files (main (sample_world\<lparr>llm_tuples := (\<lambda>k model msgs. Inl (Exception ''Timeout''))\<rparr>)
        empty_fs) = empty_fs"
proof -
  let ?down = "sample_world\<lparr>llm_tuples := (\<lambda>k model msgs. Inl (Exception ''Timeout''))\<rparr>"
  have key: "''OPENAI_API_KEY'' \<in> os_environ sample_world"
    by (rule sample_credential)
  have key': "''OPENAI_API_KEY'' \<in> os_environ ?down"
    by (simp add: sample_world_def)
  have tuples: "fst (tuples_stage sample_world) \<noteq> []"
    by (simp add: sample_tuples_stage)
  have "fst (call_llm (llm_adversarial sample_world)
               [user_message (prompt_adversarial sample_world NUM_ADVERSARIAL_QUERIES)]
               (schema_queries sample_world)) = Inl (Exception ''Timeout'')"
    by (simp add: sample_world_def call_llm_unfold try_attempt_def)
  then have adversarial: "fst (adversarial_stage sample_world) = []"
    by (simp add: generate_adversarial_queries_def)
  have "fst (call_llm (llm_tuples ?down) [user_message (prompt_tuples ?down)] (schema_tuples ?down))
      = Inl (Exception ''Timeout'')"
    by (simp add: call_llm_unfold try_attempt_def)
  then have none: "fst (tuples_stage ?down) = []"
    by (simp add: generate_dimension_tuples_failure)
  from main_fatal_only_without_tuples [OF key, of empty_fs] tuples
  have "run_saved (main sample_world empty_fs) \<noteq> None"
    by simp
  moreover from main_fatal_only_without_tuples [OF key', of empty_fs] none
  have "run_saved (main ?down empty_fs) = None \<and> run_files (main ?down empty_fs) = empty_fs"
    by simp
  ultimately show ?thesis
    using key tuples adversarial none by simp
qed

section \<open>The record invariant\<close>

lemma regular_record_invariant: "1 \<le> n \<Longrightarrow> record_invariant (regular_record dts (n, i, q))"
  by (simp add: record_invariant_def regular_record_def category_prefix_def parse_nat_format_03d)

lemma ambiguous_record_invariant: "record_invariant (ambiguous_record (i, q))"
  by (simp add: record_invariant_def ambiguous_record_def category_prefix_def parse_nat_format_03d)

lemma adversarial_record_invariant: "record_invariant (adversarial_record (i, q))"
  by (simp add: record_invariant_def adversarial_record_def category_prefix_def
      parse_nat_format_03d)

lemma enumerate_from: "(n, x) \<in> set (enumerate k xs) \<Longrightarrow> k \<le> n"
  by (auto simp: in_set_enumerate_eq)

lemma regular_stage_invariant:
  "q \<in> set (fst (generate_queries_parallel prompt task_completion response_format sched dts))
     \<Longrightarrow> record_invariant q"
proof -
  assume "q \<in> set (fst (generate_queries_parallel prompt task_completion response_format
      sched dts))"
  then obtain n i x where q: "q = regular_record dts (n, i, x)"
    and "(n, i, x) \<in> set (enumerate 1
       (tagged (\<lambda>i. fst (generate_queries_for_tuple prompt (task_completion i)
                           response_format (dts ! i)))
          (as_completed sched 0 [0..<length dts])))"
    unfolding generate_queries_parallel_records by auto
  then have "1 \<le> n"
    by (rule_tac enumerate_from)
  with q show ?thesis
    by (simp add: regular_record_invariant)
qed

lemma ambiguous_ids:
  "map id' (map ambiguous_record (enumerate 0 xs))
     = map (\<lambda>n. ''AMB'' @ format_03d (n + 1)) [0..<length xs]"
proof -
  have "map id' (map ambiguous_record (enumerate 0 xs))
      = map (\<lambda>n. ''AMB'' @ format_03d (n + 1)) (map fst (enumerate 0 xs))"
    unfolding map_map by (rule map_cong) (auto simp: ambiguous_record_def)
  then show ?thesis by simp
qed

lemma adversarial_ids:
  "map id' (map adversarial_record (enumerate 0 xs))
     = map (\<lambda>n. ''ADV'' @ format_03d (n + 1)) [0..<length xs]"
proof -
  have "map id' (map adversarial_record (enumerate 0 xs))
      = map (\<lambda>n. ''ADV'' @ format_03d (n + 1)) (map fst (enumerate 0 xs))"
    unfolding map_map by (rule map_cong) (auto simp: adversarial_record_def)
  then show ?thesis by simp
qed

lemma regular_ids:
  "map id' (fst (generate_queries_parallel prompt task_completion response_format sched dts))
     = map (\<lambda>n. ''SYN'' @ format_03d n)
         [1..<1 + length (fst (generate_queries_parallel prompt task_completion response_format
                                sched dts))]"
  unfolding generate_queries_parallel_records record_ids length_map length_enumerate ..

lemma disjoint_by_tag:
  "\<forall>s \<in> A. f s = a \<Longrightarrow> \<forall>s \<in> B. f s = b \<Longrightarrow> a \<noteq> b \<Longrightarrow> A \<inter> B = {}"
  by auto

lemma merged_ids_distinct: "distinct (map id' (merged w))"
proof -
  let ?regular = "map id' (fst (regular_stage w))"
  let ?ambiguous = "map id' (map ambiguous_record (enumerate 0 (fst (ambiguous_stage w))))"
  let ?adversarial = "map id' (map adversarial_record (enumerate 0 (fst (adversarial_stage w))))"
  have regular: "distinct ?regular"
    unfolding regular_ids by (rule distinct_numbered) simp_all
  have ambiguous: "distinct ?ambiguous"
    unfolding ambiguous_ids by (rule distinct_numbered) simp_all
  have adversarial: "distinct ?adversarial"
    unfolding adversarial_ids by (rule distinct_numbered) simp_all
  have r: "\<forall>s \<in> set ?regular. take 3 s = ''SYN''"
    unfolding regular_ids by simp
  have a: "\<forall>s \<in> set ?ambiguous. take 3 s = ''AMB''"
    unfolding ambiguous_ids by simp
  have d: "\<forall>s \<in> set ?adversarial. take 3 s = ''ADV''"
    unfolding adversarial_ids by simp
  have ra: "set ?regular \<inter> set ?ambiguous = {}"
    by (rule disjoint_by_tag [OF r a]) simp
  have rd: "set ?regular \<inter> set ?adversarial = {}"
    by (rule disjoint_by_tag [OF r d]) simp
  have ad: "set ?ambiguous \<inter> set ?adversarial = {}"
    by (rule disjoint_by_tag [OF a d]) simp
  have "map id' (merged w) = ?regular @ ?ambiguous @ ?adversarial"
    by (simp add: merged_def)
  with regular ambiguous adversarial ra rd ad show ?thesis
    by (simp only: distinct_append set_append) blast
qed

lemma merged_invariant:
  assumes "q \<in> set (merged w)"
  shows "record_invariant q"
proof -
  from assms consider
      (regular) "q \<in> set (fst (regular_stage w))"
    | (ambiguous) "q \<in> set (map ambiguous_record (enumerate 0 (fst (ambiguous_stage w))))"
    | (adversarial) "q \<in> set (map adversarial_record (enumerate 0 (fst (adversarial_stage w))))"
    unfolding merged_def set_append by blast
  then show ?thesis
  proof cases
    case regular
    then show ?thesis by (rule regular_stage_invariant)
  next
    case ambiguous
    then obtain p where "q = ambiguous_record p"
      by (auto simp only: set_map)
    then show ?thesis
      by (cases p) (simp only: ambiguous_record_invariant)
  next
    case adversarial
    then obtain p where "q = adversarial_record p"
      by (auto simp only: set_map)
    then show ?thesis
      by (cases p) (simp only: adversarial_record_invariant)
  qed
qed

lemma created_in_merged: "q \<in> set (created (main w fs)) \<Longrightarrow> q \<in> set (merged w)"
  by (simp add: created_main split: if_splits)

lemma created_ids_distinct: "distinct (map id' (created (main w fs)))"
  by (simp add: created_main merged_ids_distinct)

lemma saved_is_shuffle:
  assumes "run_saved (main w fs) = Some saved"
  shows "saved = shuffle (random_draws w) (merged w)"
  using assms by (simp add: run_saved_main split: if_splits)

lemma shuffled_ids_distinct:
  assumes "saved = shuffle (random_draws w) (merged w)"
  shows "distinct (map id' saved)"
proof -
  have "mset saved = mset (merged w)"
    unfolding assms by (rule mset_shuffle)
  then have "mset (map id' saved) = mset (map id' (merged w))"
    by (simp only: mset_map)
  from mset_eq_imp_distinct_iff [OF this] merged_ids_distinct [of w] show ?thesis
    by blast
qed

lemma shuffled_invariant:
  assumes "saved = shuffle (random_draws w) (merged w)" and "q \<in> set saved"
  shows "record_invariant q"
proof -
  have "set saved = set (merged w)"
    unfolding assms(1) by (rule mset_eq_setD [OF mset_shuffle])
  with assms(2) have "q \<in> set (merged w)"
    by simp
  then show ?thesis
    by (rule merged_invariant)
qed

text \<open>
  Claim C8. Every record a run of \<^verbatim>\<open>main\<close> creates satisfies the record invariant: its
  category is one of the three tags, its identifier is the prefix of its category
  followed by the zero-padded form of a sequence number from 1 on, its dimension tuple is
  present exactly when the category is regular, its kept flag is 1 and its note is empty.
  The identifiers of the records created are pairwise distinct (so they are within each
  prefix), and the same holds of the sequence handed to persistence. The sequence number
  is read back from its zero-padded form, which has at least three characters.
\<close>

theorem main_record_invariant:
  "(\<forall>q \<in> set (created (main w fs)). record_invariant q)
   \<and> distinct (map id' (created (main w fs)))
   \<and> (\<forall>saved. run_saved (main w fs) = Some saved \<longrightarrow>
         (\<forall>q \<in> set saved. record_invariant q) \<and> distinct (map id' saved))
   \<and> (\<forall>n. parse_nat (format_03d n) = n \<and> 3 \<le> length (format_03d n))"
proof -
  have all: "\<forall>q \<in> set (created (main w fs)). record_invariant q"
    by (blast intro: merged_invariant created_in_merged)
  have handed: "\<forall>saved. run_saved (main w fs) = Some saved \<longrightarrow>
      (\<forall>q \<in> set saved. record_invariant q) \<and> distinct (map id' saved)"
  proof (intro allI impI)
    fix saved
    assume "run_saved (main w fs) = Some saved"
    then have s: "saved = shuffle (random_draws w) (merged w)"
      by (rule saved_is_shuffle)
    have "\<forall>q \<in> set saved. record_invariant q"
      by (blast intro: shuffled_invariant [OF s])
    moreover have "distinct (map id' saved)"
      using s by (rule shuffled_ids_distinct)
    ultimately show "(\<forall>q \<in> set saved. record_invariant q) \<and> distinct (map id' saved)" ..
  qed
  have numbers: "\<forall>n. parse_nat (format_03d n) = n \<and> 3 \<le> length (format_03d n)"
    by (simp add: parse_nat_format_03d length_format_03d)
  from all created_ids_distinct [of w fs] handed numbers show ?thesis
    by (intro conjI)
qed

text \<open>
  Witness for C8: the records of the sample run; the run creates some, and hands them
  to persistence.
\<close>

theorem main_record_invariant_witness:
  "created (main sample_world empty_fs) \<noteq> []
   \<and> list_all record_invariant (created (main sample_world empty_fs))
   \<and> distinct (map id' (created (main sample_world empty_fs)))
   \<and> run_saved (main sample_world empty_fs)
       = Some (shuffle (random_draws sample_world) (merged sample_world))
   \<and> list_all record_invariant (shuffle (random_draws sample_world) (merged sample_world))
   \<and> distinct (map id' (shuffle (random_draws sample_world) (merged sample_world)))"
proof -
  have saved: "run_saved (main sample_world empty_fs)
      = Some (shuffle (random_draws sample_world) (merged sample_world))"
    by (simp add: run_saved_main sample_credential sample_tuples_stage)
  have "fst (call_llm (llm_ambiguous sample_world)
               [user_message (prompt_ambiguous sample_world NUM_AMBIGUOUS_QUERIES)]
               (schema_queries sample_world))
      = Inr (Some \<lparr>queries = [''vegan dinner fast'', ''easy lunch pls'']\<rparr>)"
    by (simp add: sample_world_def call_llm_unfold try_attempt_def sample_queries_schema_def)
  then have "fst (ambiguous_stage sample_world) = [''vegan dinner fast'', ''easy lunch pls'']"
    by (simp add: generate_ambiguous_queries_def)
  then have "merged sample_world \<noteq> []"
    unfolding merged_def by simp
  then have some: "created (main sample_world empty_fs) \<noteq> []"
    by (simp only: created_main sample_credential sample_tuples_stage) simp
  note inv = main_record_invariant [of sample_world empty_fs]
  from inv have created_ok: "\<forall>q \<in> set (created (main sample_world empty_fs)). record_invariant q"
    by (rule conjunct1)
  from inv have created_distinct: "distinct (map id' (created (main sample_world empty_fs)))"
    by blast
  from inv saved have handed:
    "(\<forall>q \<in> set (shuffle (random_draws sample_world) (merged sample_world)). record_invariant q)
     \<and> distinct (map id' (shuffle (random_draws sample_world) (merged sample_world)))"
    by blast
  from some created_ok created_distinct saved handed show ?thesis
    unfolding list_all_iff by (intro conjI) blast+
qed

end
